theory Spec2Isabelle
  imports Main "HOL-Library.Sublist"
begin

section \<open>Shopify orders to Clickpost shipping labels (main.go)\<close>

text \<open>
  A Go \<^verbatim>\<open>string\<close> is a sequence of bytes, and the string literals of main.go are
  stored in UTF-8. It is modelled by \<^typ>\<open>string\<close>, a list of 8-bit characters:
  \<open>length\<close> is Go's \<^verbatim>\<open>len\<close>, \<open>@\<close> is Go's \<^verbatim>\<open>+\<close>, \<open>[]\<close> is \<^verbatim>\<open>""\<close>, and a
  literal outside ASCII is written byte by byte.

  A Go \<^verbatim>\<open>error\<close> made by \<^verbatim>\<open>errors.New\<close> is modelled by its message; a returned
  \<^verbatim>\<open>nil\<close> error is \<open>None\<close>.
\<close>

type_synonym error = string

subsection \<open>The two record types\<close>

record ShopifyOrder =
  Name :: string
  ShippingName :: string
  ShippingStreet :: string
  ShippingAddress1 :: string
  ShippingAddress2 :: string
  ShippingCity :: string
  ShippingZip :: string
  ShippingProvince :: string

record ClickpostShippingLabel =
  ShippingZip :: string
  ShippingName :: string
  ShippingNameTitle :: string
  ShippingAddress1 :: string
  ShippingAddress2 :: string
  ShippingAddress3 :: string
  ShippingAddress4 :: string
  ShippingContents :: string

text \<open>
  Both structs have fields called ShippingZip, ShippingName, ShippingAddress1 and
  ShippingAddress2; below they are always written with the record's name in front.
\<close>

subsection \<open>The string literals of main.go\<close>

text \<open>The honorific of line 95, one character (U+69D8), three bytes.\<close>

definition lit_NameTitle :: string where
  "lit_NameTitle = [CHR 0xE6, CHR 0xA7, CHR 0x98]"

text \<open>The contents of line 99: six katakana characters, eighteen bytes.\<close>

definition lit_Contents :: string where
  "lit_Contents =
    [CHR 0xE3, CHR 0x82, CHR 0xB5, CHR 0xE3, CHR 0x83, CHR 0x97, CHR 0xE3, CHR 0x83,
     CHR 0xAA, CHR 0xE3, CHR 0x83, CHR 0xA1, CHR 0xE3, CHR 0x83, CHR 0xB3, CHR 0xE3,
     CHR 0x83, CHR 0x88]"

text \<open>
  The ten messages of \<^verbatim>\<open>Validate\<close>, lines 117 to 144, in the order of the source:
  postal code required; name required; name at most 20 full-width characters;
  address line 1 required; address line 1 at most 20; address line 2 required;
  address line 2 at most 20; address line 3 at most 20; address line 4 at most 20;
  contents at most 15.
\<close>

definition errZipRequired :: error where
  "errZipRequired =
    [CHR 0xE3, CHR 0x81, CHR 0x8A, CHR 0xE5, CHR 0xB1, CHR 0x8A, CHR 0xE3, CHR 0x81,
     CHR 0x91, CHR 0xE5, CHR 0x85, CHR 0x88, CHR 0xE9, CHR 0x83, CHR 0xB5, CHR 0xE4,
     CHR 0xBE, CHR 0xBF, CHR 0xE7, CHR 0x95, CHR 0xAA, CHR 0xE5, CHR 0x8F, CHR 0xB7,
     CHR 0xE3, CHR 0x81, CHR 0xAF, CHR 0xE5, CHR 0xBF, CHR 0x85, CHR 0xE9, CHR 0xA0,
     CHR 0x88, CHR 0xE3, CHR 0x81, CHR 0xA7, CHR 0xE3, CHR 0x81, CHR 0x99]"

definition errNameRequired :: error where
  "errNameRequired =
    [CHR 0xE3, CHR 0x81, CHR 0x8A, CHR 0xE5, CHR 0xB1, CHR 0x8A, CHR 0xE3, CHR 0x81,
     CHR 0x91, CHR 0xE5, CHR 0x85, CHR 0x88, CHR 0xE6, CHR 0xB0, CHR 0x8F, CHR 0xE5,
     CHR 0x90, CHR 0x8D, CHR 0xE3, CHR 0x81, CHR 0xAF, CHR 0xE5, CHR 0xBF, CHR 0x85,
     CHR 0xE9, CHR 0xA0, CHR 0x88, CHR 0xE3, CHR 0x81, CHR 0xA7, CHR 0xE3, CHR 0x81,
     CHR 0x99]"

definition errNameTooLong :: error where
  "errNameTooLong =
    [CHR 0xE3, CHR 0x81, CHR 0x8A, CHR 0xE5, CHR 0xB1, CHR 0x8A, CHR 0xE3, CHR 0x81,
     CHR 0x91, CHR 0xE5, CHR 0x85, CHR 0x88, CHR 0xE6, CHR 0xB0, CHR 0x8F, CHR 0xE5,
     CHR 0x90, CHR 0x8D, CHR 0xE3, CHR 0x81, CHR 0xAF, CHR 0xE5, CHR 0x85, CHR 0xA8,
     CHR 0xE8, CHR 0xA7, CHR 0x92, CHR ''2'', CHR ''0'', CHR 0xE6, CHR 0x96, CHR 0x87,
     CHR 0xE5, CHR 0xAD, CHR 0x97, CHR 0xE3, CHR 0x81, CHR 0xBE, CHR 0xE3, CHR 0x81,
     CHR 0xA7, CHR 0xE3, CHR 0x81, CHR 0xA7, CHR 0xE3, CHR 0x81, CHR 0x99]"

definition errAddress1Required :: error where
  "errAddress1Required =
    [CHR 0xE3, CHR 0x81, CHR 0x8A, CHR 0xE5, CHR 0xB1, CHR 0x8A, CHR 0xE3, CHR 0x81,
     CHR 0x91, CHR 0xE5, CHR 0x85, CHR 0x88, CHR 0xE4, CHR 0xBD, CHR 0x8F, CHR 0xE6,
     CHR 0x89, CHR 0x80, CHR ''1'', CHR 0xE8, CHR 0xA1, CHR 0x8C, CHR 0xE7, CHR 0x9B,
     CHR 0xAE, CHR 0xE3, CHR 0x81, CHR 0xAF, CHR 0xE5, CHR 0xBF, CHR 0x85, CHR 0xE9,
     CHR 0xA0, CHR 0x88, CHR 0xE3, CHR 0x81, CHR 0xA7, CHR 0xE3, CHR 0x81, CHR 0x99]"

definition errAddress1TooLong :: error where
  "errAddress1TooLong =
    [CHR 0xE3, CHR 0x81, CHR 0x8A, CHR 0xE5, CHR 0xB1, CHR 0x8A, CHR 0xE3, CHR 0x81,
     CHR 0x91, CHR 0xE5, CHR 0x85, CHR 0x88, CHR 0xE4, CHR 0xBD, CHR 0x8F, CHR 0xE6,
     CHR 0x89, CHR 0x80, CHR ''1'', CHR 0xE8, CHR 0xA1, CHR 0x8C, CHR 0xE7, CHR 0x9B,
     CHR 0xAE, CHR 0xE3, CHR 0x81, CHR 0xAF, CHR 0xE5, CHR 0x85, CHR 0xA8, CHR 0xE8,
     CHR 0xA7, CHR 0x92, CHR ''2'', CHR ''0'', CHR 0xE6, CHR 0x96, CHR 0x87, CHR 0xE5,
     CHR 0xAD, CHR 0x97, CHR 0xE3, CHR 0x81, CHR 0xBE, CHR 0xE3, CHR 0x81, CHR 0xA7,
     CHR 0xE3, CHR 0x81, CHR 0xA7, CHR 0xE3, CHR 0x81, CHR 0x99]"

definition errAddress2Required :: error where
  "errAddress2Required =
    [CHR 0xE3, CHR 0x81, CHR 0x8A, CHR 0xE5, CHR 0xB1, CHR 0x8A, CHR 0xE3, CHR 0x81,
     CHR 0x91, CHR 0xE5, CHR 0x85, CHR 0x88, CHR 0xE4, CHR 0xBD, CHR 0x8F, CHR 0xE6,
     CHR 0x89, CHR 0x80, CHR ''2'', CHR 0xE8, CHR 0xA1, CHR 0x8C, CHR 0xE7, CHR 0x9B,
     CHR 0xAE, CHR 0xE3, CHR 0x81, CHR 0xAF, CHR 0xE5, CHR 0xBF, CHR 0x85, CHR 0xE9,
     CHR 0xA0, CHR 0x88, CHR 0xE3, CHR 0x81, CHR 0xA7, CHR 0xE3, CHR 0x81, CHR 0x99]"

definition errAddress2TooLong :: error where
  "errAddress2TooLong =
    [CHR 0xE3, CHR 0x81, CHR 0x8A, CHR 0xE5, CHR 0xB1, CHR 0x8A, CHR 0xE3, CHR 0x81,
     CHR 0x91, CHR 0xE5, CHR 0x85, CHR 0x88, CHR 0xE4, CHR 0xBD, CHR 0x8F, CHR 0xE6,
     CHR 0x89, CHR 0x80, CHR ''2'', CHR 0xE8, CHR 0xA1, CHR 0x8C, CHR 0xE7, CHR 0x9B,
     CHR 0xAE, CHR 0xE3, CHR 0x81, CHR 0xAF, CHR 0xE5, CHR 0x85, CHR 0xA8, CHR 0xE8,
     CHR 0xA7, CHR 0x92, CHR ''2'', CHR ''0'', CHR 0xE6, CHR 0x96, CHR 0x87, CHR 0xE5,
     CHR 0xAD, CHR 0x97, CHR 0xE3, CHR 0x81, CHR 0xBE, CHR 0xE3, CHR 0x81, CHR 0xA7,
     CHR 0xE3, CHR 0x81, CHR 0xA7, CHR 0xE3, CHR 0x81, CHR 0x99]"

definition errAddress3TooLong :: error where
  "errAddress3TooLong =
    [CHR 0xE3, CHR 0x81, CHR 0x8A, CHR 0xE5, CHR 0xB1, CHR 0x8A, CHR 0xE3, CHR 0x81,
     CHR 0x91, CHR 0xE5, CHR 0x85, CHR 0x88, CHR 0xE4, CHR 0xBD, CHR 0x8F, CHR 0xE6,
     CHR 0x89, CHR 0x80, CHR ''3'', CHR 0xE8, CHR 0xA1, CHR 0x8C, CHR 0xE7, CHR 0x9B,
     CHR 0xAE, CHR 0xE3, CHR 0x81, CHR 0xAF, CHR 0xE5, CHR 0x85, CHR 0xA8, CHR 0xE8,
     CHR 0xA7, CHR 0x92, CHR ''2'', CHR ''0'', CHR 0xE6, CHR 0x96, CHR 0x87, CHR 0xE5,
     CHR 0xAD, CHR 0x97, CHR 0xE3, CHR 0x81, CHR 0xBE, CHR 0xE3, CHR 0x81, CHR 0xA7,
     CHR 0xE3, CHR 0x81, CHR 0xA7, CHR 0xE3, CHR 0x81, CHR 0x99]"

definition errAddress4TooLong :: error where
  "errAddress4TooLong =
    [CHR 0xE3, CHR 0x81, CHR 0x8A, CHR 0xE5, CHR 0xB1, CHR 0x8A, CHR 0xE3, CHR 0x81,
     CHR 0x91, CHR 0xE5, CHR 0x85, CHR 0x88, CHR 0xE4, CHR 0xBD, CHR 0x8F, CHR 0xE6,
     CHR 0x89, CHR 0x80, CHR ''4'', CHR 0xE8, CHR 0xA1, CHR 0x8C, CHR 0xE7, CHR 0x9B,
     CHR 0xAE, CHR 0xE3, CHR 0x81, CHR 0xAF, CHR 0xE5, CHR 0x85, CHR 0xA8, CHR 0xE8,
     CHR 0xA7, CHR 0x92, CHR ''2'', CHR ''0'', CHR 0xE6, CHR 0x96, CHR 0x87, CHR 0xE5,
     CHR 0xAD, CHR 0x97, CHR 0xE3, CHR 0x81, CHR 0xBE, CHR 0xE3, CHR 0x81, CHR 0xA7,
     CHR 0xE3, CHR 0x81, CHR 0xA7, CHR 0xE3, CHR 0x81, CHR 0x99]"

definition errContentsTooLong :: error where
  "errContentsTooLong =
    [CHR 0xE5, CHR 0x86, CHR 0x85, CHR 0xE5, CHR 0xAE, CHR 0xB9, CHR 0xE5, CHR 0x93,
     CHR 0x81, CHR 0xE3, CHR 0x81, CHR 0xAF, CHR 0xE5, CHR 0x85, CHR 0xA8, CHR 0xE8,
     CHR 0xA7, CHR 0x92, CHR ''1'', CHR ''5'', CHR 0xE6, CHR 0x96, CHR 0x87, CHR 0xE5,
     CHR 0xAD, CHR 0x97, CHR 0xE3, CHR 0x81, CHR 0xBE, CHR 0xE3, CHR 0x81, CHR 0xA7,
     CHR 0xE3, CHR 0x81, CHR 0xA7, CHR 0xE3, CHR 0x81, CHR 0x99]"

text \<open>
  The two fixed pieces of the format string of line 59, around \<^verbatim>\<open>%s\<close> and \<^verbatim>\<open>%v\<close>:
  "order number:" and " error:"; the format ends with a line feed.
\<close>

definition lit_LogOrder :: string where
  "lit_LogOrder =
    [CHR 0xE6, CHR 0xB3, CHR 0xA8, CHR 0xE6, CHR 0x96, CHR 0x87, CHR 0xE7, CHR 0x95,
     CHR 0xAA, CHR 0xE5, CHR 0x8F, CHR 0xB7, CHR '':'']"

definition lit_LogError :: string where
  "lit_LogError =
    [CHR '' '', CHR 0xE3, CHR 0x82, CHR 0xA8, CHR 0xE3, CHR 0x83, CHR 0xA9, CHR 0xE3,
     CHR 0x83, CHR 0xBC, CHR '':'']"

subsection \<open>ToClickpostShippingLabel (lines 91 to 101)\<close>

text \<open>
  The method has a value receiver \<^verbatim>\<open>s\<close>; every right-hand side reads a field of
  the order \<^verbatim>\<open>s\<close>. ShippingAddress4 is not set, so it holds Go's zero value, the
  empty string.
\<close>

definition ToClickpostShippingLabel :: "ShopifyOrder \<Rightarrow> ClickpostShippingLabel" where
  "ToClickpostShippingLabel s = \<lparr>
     ClickpostShippingLabel.ShippingZip = ShopifyOrder.ShippingZip s,
     ClickpostShippingLabel.ShippingName = ShopifyOrder.ShippingName s,
     ShippingNameTitle = lit_NameTitle,
     ClickpostShippingLabel.ShippingAddress1 = ShippingProvince s @ ShippingCity s,
     ClickpostShippingLabel.ShippingAddress2 =
       ShippingStreet s @ ShopifyOrder.ShippingAddress1 s,
     ShippingAddress3 = ShopifyOrder.ShippingAddress2 s,
     ShippingAddress4 = [],
     ShippingContents = lit_Contents \<rparr>"

subsection \<open>Counting runes: utf8.RuneCountInString\<close>

text \<open>
  \<^verbatim>\<open>Validate\<close> measures its fields with \<^verbatim>\<open>utf8.RuneCountInString\<close> of Go's standard
  library (package unicode/utf8), which is not part of this repository. It is modelled
  here after the library: the string is scanned from the left; a well-formed UTF-8
  sequence of one to four bytes counts as one rune, and a byte that does not start a
  well-formed sequence counts as one rune of width one.

  \<open>first b\<close> is what the library's table \<^verbatim>\<open>first\<close> and \<^verbatim>\<open>acceptRanges\<close> give for a
  leading byte \<open>b\<close>: the length of the sequence it announces, and the range allowed
  for the second byte. Length 1 stands for ASCII and for an invalid leading byte alike.
\<close>

definition byte :: "char \<Rightarrow> nat" where
  "byte c = of_char c"

definition first :: "nat \<Rightarrow> nat \<times> nat \<times> nat" where
  "first b =
    (if b < 0xC2 then (1, 0, 0)
     else if b < 0xE0 then (2, 0x80, 0xBF)
     else if b = 0xE0 then (3, 0xA0, 0xBF)
     else if b < 0xED then (3, 0x80, 0xBF)
     else if b = 0xED then (3, 0x80, 0x9F)
     else if b < 0xF0 then (3, 0x80, 0xBF)
     else if b = 0xF0 then (4, 0x90, 0xBF)
     else if b < 0xF4 then (4, 0x80, 0xBF)
     else if b = 0xF4 then (4, 0x80, 0x8F)
     else (1, 0, 0))"

text \<open>A continuation byte lies between \<^verbatim>\<open>locb\<close> = 0x80 and \<^verbatim>\<open>hicb\<close> = 0xBF.\<close>

definition cont :: "char \<Rightarrow> bool" where
  "cont c = (0x80 \<le> byte c \<and> byte c \<le> 0xBF)"

text \<open>
  \<open>rune_size c cs\<close> is the number of bytes one round of the library's loop advances
  by, when the rest of the string is \<open>c # cs\<close>.
\<close>

definition rune_size :: "char \<Rightarrow> string \<Rightarrow> nat" where
  "rune_size c cs =
    (case first (byte c) of (n, lo, hi) \<Rightarrow>
       if n = 1 then 1
       else if Suc (length cs) < n then 1
       else if byte (cs ! 0) < lo \<or> hi < byte (cs ! 0) then 1
       else if n = 2 then 2
       else if \<not> cont (cs ! 1) then 1
       else if n = 3 then 3
       else if \<not> cont (cs ! 2) then 1
       else 4)"

fun RuneCountInString :: "string \<Rightarrow> nat" where
  "RuneCountInString [] = 0"
| "RuneCountInString (c # cs) = Suc (RuneCountInString (drop (rune_size c cs - 1) cs))"

text \<open>
  The encoder of the same package, \<^verbatim>\<open>utf8.AppendRune\<close>, for a valid rune: a Unicode
  scalar value, that is a code point up to U+10FFFF outside the surrogate range.
  It is what stores one character of a Go string.
\<close>

definition ValidRune :: "nat \<Rightarrow> bool" where
  "ValidRune r = (r < 0xD800 \<or> (0xDFFF < r \<and> r \<le> 0x10FFFF))"

definition AppendRune :: "nat \<Rightarrow> string" where
  "AppendRune r =
    (if r < 0x80 then [char_of r]
     else if r < 0x800 then [char_of (0xC0 + r div 64), char_of (0x80 + r mod 64)]
     else if r < 0x10000 then
       [char_of (0xE0 + r div 4096), char_of (0x80 + (r div 64) mod 64),
        char_of (0x80 + r mod 64)]
     else
       [char_of (0xF0 + r div 262144), char_of (0x80 + (r div 4096) mod 64),
        char_of (0x80 + (r div 64) mod 64), char_of (0x80 + r mod 64)])"

definition utf8 :: "nat list \<Rightarrow> string" where
  "utf8 rs = concat (map AppendRune rs)"

subsection \<open>Validate (lines 115 to 147)\<close>

definition Validate :: "ClickpostShippingLabel \<Rightarrow> error option" where
  "Validate c =
    (if ClickpostShippingLabel.ShippingZip c = [] then Some errZipRequired
     else if ClickpostShippingLabel.ShippingName c = [] then Some errNameRequired
     else if RuneCountInString (ClickpostShippingLabel.ShippingName c) > 20
       then Some errNameTooLong
     else if ClickpostShippingLabel.ShippingAddress1 c = [] then Some errAddress1Required
     else if RuneCountInString (ClickpostShippingLabel.ShippingAddress1 c) > 20
       then Some errAddress1TooLong
     else if ClickpostShippingLabel.ShippingAddress2 c = [] then Some errAddress2Required
     else if RuneCountInString (ClickpostShippingLabel.ShippingAddress2 c) > 20
       then Some errAddress2TooLong
     else if RuneCountInString (ShippingAddress3 c) > 20 then Some errAddress3TooLong
     else if RuneCountInString (ShippingAddress4 c) > 20 then Some errAddress4TooLong
     else if RuneCountInString (ShippingContents c) > 15 then Some errContentsTooLong
     else None)"

subsection \<open>ChunkShopifyOrders (lines 46 to 51)\<close>

text \<open>
  The slices hold pointers, \<^verbatim>\<open>[]*ShopifyOrder\<close>: an element is \<open>Some\<close> order, or
  \<open>None\<close> for \<^verbatim>\<open>nil\<close>. Nothing in main.go writes through a pointer or compares two
  pointers, so the order pointed to stands for the pointer.

  A run-time panic is a value of its own.
\<close>

datatype panic = SliceBoundsOutOfRange | NilPointerDereference

text \<open>
  The loop of lines 47 to 49, with the named result \<^verbatim>\<open>chunks\<close> as third argument.
  \<^verbatim>\<open>chunkSize\<close> is a Go \<^verbatim>\<open>int\<close>; it is only compared with \<^verbatim>\<open>len(items)\<close> and used
  as a slice bound, so no arithmetic can overflow and it is modelled by \<^typ>\<open>int\<close>.
  Inside the loop \<^verbatim>\<open>chunkSize < len(items)\<close> holds, so \<^verbatim>\<open>items[chunkSize:]\<close> and
  \<^verbatim>\<open>items[0:chunkSize:chunkSize]\<close> are within bounds unless \<^verbatim>\<open>chunkSize\<close> is negative,
  where the slice expression panics. The result is \<open>None\<close> when the loop runs
  forever.
\<close>

partial_function (option) ChunkShopifyOrders_loop ::
  "ShopifyOrder option list \<Rightarrow> int \<Rightarrow> ShopifyOrder option list list
    \<Rightarrow> (panic + ShopifyOrder option list list) option"
where
  "ChunkShopifyOrders_loop items chunkSize chunks =
    (if chunkSize < int (length items) then
       if chunkSize < 0 then Some (Inl SliceBoundsOutOfRange)
       else ChunkShopifyOrders_loop (drop (nat chunkSize) items) chunkSize
              (chunks @ [take (nat chunkSize) items])
     else Some (Inr (chunks @ [items])))"

definition ChunkShopifyOrders ::
  "ShopifyOrder option list \<Rightarrow> int \<Rightarrow> (panic + ShopifyOrder option list list) option"
where
  "ChunkShopifyOrders items chunkSize = ChunkShopifyOrders_loop items chunkSize []"

subsection \<open>ExportClickpostShippingLabels (lines 54 to 78)\<close>

text \<open>
  What \<^verbatim>\<open>fmt\<close> makes of the format string of line 59 for an order number and an
  error: \<^verbatim>\<open>%s\<close> is the string, \<^verbatim>\<open>%v\<close> of an error is its message. The standard
  logger writes a date and time in front of it, which is left out here.
\<close>

definition LogLine :: "string \<Rightarrow> error \<Rightarrow> string" where
  "LogLine name err = lit_LogOrder @ name @ lit_LogError @ err @ [CHR 0x0A]"

text \<open>
  The loop of lines 56 to 63: the labels appended so far and the lines logged so far
  are passed along. Calling the method on a \<^verbatim>\<open>nil\<close> order dereferences it and
  panics; what was logged before stays logged.
\<close>

fun Export_loop ::
  "ShopifyOrder option list \<Rightarrow> ClickpostShippingLabel list \<Rightarrow> string list
    \<Rightarrow> (panic + ClickpostShippingLabel list) \<times> string list"
where
  "Export_loop [] shippingLabels logs = (Inr shippingLabels, logs)"
| "Export_loop (None # orders) shippingLabels logs = (Inl NilPointerDereference, logs)"
| "Export_loop (Some o1 # orders) shippingLabels logs =
    (let label = ToClickpostShippingLabel o1 in
     case Validate label of
       Some err \<Rightarrow> Export_loop orders shippingLabels (logs @ [LogLine (Name o1) err])
     | None \<Rightarrow> Export_loop orders (shippingLabels @ [label]) logs)"

text \<open>
  The world the program acts on: the lines written by the logger, oldest first, and the
  files by name.
\<close>

record World =
  logged :: "string list"
  files :: "string \<rightharpoonup> string"

text \<open>
  \<^verbatim>\<open>os.Create\<close> and \<^verbatim>\<open>gocsv.MarshalFile\<close> belong to other packages; they are
  parameters. \<open>create filename\<close> is the error of creating the file, if any.
  \<open>marshal labels\<close> is what the writer set up in lines 69 to 73 (header row, CRLF,
  Shift JIS) puts into the file for these labels, and the error it ends with, if any.
  The function returns an error or \<^verbatim>\<open>nil\<close> (\<open>Inr\<close>), unless it panics (\<open>Inl\<close>).
\<close>

definition ExportClickpostShippingLabels ::
  "(string \<Rightarrow> error option) \<Rightarrow> (ClickpostShippingLabel list \<Rightarrow> string \<times> error option)
    \<Rightarrow> string \<Rightarrow> ShopifyOrder option list \<Rightarrow> World \<Rightarrow> (panic + error option) \<times> World"
where
  "ExportClickpostShippingLabels create marshal filename orders w =
    (case Export_loop orders [] (logged w) of
       (Inl p, lg) \<Rightarrow> (Inl p, w\<lparr>logged := lg\<rparr>)
     | (Inr shippingLabels, lg) \<Rightarrow>
         (case create filename of
            Some err \<Rightarrow> (Inr (Some err), w\<lparr>logged := lg\<rparr>)
          | None \<Rightarrow>
              (case marshal shippingLabels of
                 (written, err) \<Rightarrow>
                   (Inr err, w\<lparr>logged := lg, files := (files w)(filename \<mapsto> written)\<rparr>))))"

section \<open>What the specification says, as definitions\<close>

subsection \<open>Batching\<close>

text \<open>
  The chunks of size \<open>n\<close> of a sequence, written down directly: chunk \<open>i\<close> is the
  contiguous slice of at most \<open>n\<close> elements that starts at position \<open>i * n\<close>, and
  there are \<open>ceil (L / n)\<close> of them, but at least one.
\<close>

definition slices :: "nat \<Rightarrow> 'a list \<Rightarrow> 'a list list" where
  "slices n xs =
    map (\<lambda>i. take n (drop (i * n) xs)) [0..<max 1 ((length xs + n - 1) div n)]"

subsection \<open>Validation\<close>

text \<open>
  The ten checks of section 4.4, in its order: what must hold, and the error otherwise.
  The first check that fails gives the error.
\<close>

definition checks :: "((ClickpostShippingLabel \<Rightarrow> bool) \<times> error) list" where
  "checks =
    [(\<lambda>c. ClickpostShippingLabel.ShippingZip c \<noteq> [], errZipRequired),
     (\<lambda>c. ClickpostShippingLabel.ShippingName c \<noteq> [], errNameRequired),
     (\<lambda>c. RuneCountInString (ClickpostShippingLabel.ShippingName c) \<le> 20, errNameTooLong),
     (\<lambda>c. ClickpostShippingLabel.ShippingAddress1 c \<noteq> [], errAddress1Required),
     (\<lambda>c. RuneCountInString (ClickpostShippingLabel.ShippingAddress1 c) \<le> 20,
        errAddress1TooLong),
     (\<lambda>c. ClickpostShippingLabel.ShippingAddress2 c \<noteq> [], errAddress2Required),
     (\<lambda>c. RuneCountInString (ClickpostShippingLabel.ShippingAddress2 c) \<le> 20,
        errAddress2TooLong),
     (\<lambda>c. RuneCountInString (ShippingAddress3 c) \<le> 20, errAddress3TooLong),
     (\<lambda>c. RuneCountInString (ShippingAddress4 c) \<le> 20, errAddress4TooLong),
     (\<lambda>c. RuneCountInString (ShippingContents c) \<le> 15, errContentsTooLong)]"

fun first_failure ::
  "((ClickpostShippingLabel \<Rightarrow> bool) \<times> error) list \<Rightarrow> ClickpostShippingLabel \<Rightarrow> error option"
where
  "first_failure [] c = None"
| "first_failure ((holds, err) # rest) c = (if holds c then first_failure rest c else Some err)"

text \<open>The constraints on the fields other than the recipient name.\<close>

definition other_fields_ok :: "ClickpostShippingLabel \<Rightarrow> bool" where
  "other_fields_ok c =
    (ClickpostShippingLabel.ShippingZip c \<noteq> []
     \<and> ClickpostShippingLabel.ShippingAddress1 c \<noteq> []
     \<and> RuneCountInString (ClickpostShippingLabel.ShippingAddress1 c) \<le> 20
     \<and> ClickpostShippingLabel.ShippingAddress2 c \<noteq> []
     \<and> RuneCountInString (ClickpostShippingLabel.ShippingAddress2 c) \<le> 20
     \<and> RuneCountInString (ShippingAddress3 c) \<le> 20
     \<and> RuneCountInString (ShippingAddress4 c) \<le> 20
     \<and> RuneCountInString (ShippingContents c) \<le> 15)"

subsection \<open>Exporting\<close>

text \<open>
  The labels of a batch that validate, in the order of the batch, and the diagnostic
  lines of those that do not, in the order of the batch.
\<close>

definition accepted :: "ShopifyOrder list \<Rightarrow> ClickpostShippingLabel list" where
  "accepted orders =
    filter (\<lambda>label. Validate label = None) (map ToClickpostShippingLabel orders)"

definition diagnostics :: "ShopifyOrder list \<Rightarrow> string list" where
  "diagnostics orders =
    concat (map (\<lambda>o1. case Validate (ToClickpostShippingLabel o1) of
                        None \<Rightarrow> []
                      | Some err \<Rightarrow> [LogLine (Name o1) err]) orders)"

subsection \<open>Sample inputs\<close>

text \<open>
  The order of the round-trip scenario of section 8 (address line 2 empty, province X,
  city Y, street Z), with an address line 1; the same order with a recipient name of 21
  full-width characters (U+5C71, three bytes each); and a label with a given name.
\<close>

definition order_XYZ :: ShopifyOrder where
  "order_XYZ = \<lparr>
     Name = ''#1001'',
     ShopifyOrder.ShippingName = ''Yamada'',
     ShippingStreet = ''Z'',
     ShopifyOrder.ShippingAddress1 = ''1-2-3'',
     ShopifyOrder.ShippingAddress2 = [],
     ShippingCity = ''Y'',
     ShopifyOrder.ShippingZip = ''1000001'',
     ShippingProvince = ''X'' \<rparr>"

definition order_long_name :: ShopifyOrder where
  "order_long_name =
    order_XYZ \<lparr> Name := ''#1002'', ShopifyOrder.ShippingName := utf8 (replicate 21 0x5C71) \<rparr>"

definition label_named :: "string \<Rightarrow> ClickpostShippingLabel" where
  "label_named name = \<lparr>
     ClickpostShippingLabel.ShippingZip = ''1000001'',
     ClickpostShippingLabel.ShippingName = name,
     ShippingNameTitle = lit_NameTitle,
     ClickpostShippingLabel.ShippingAddress1 = ''XY'',
     ClickpostShippingLabel.ShippingAddress2 = ''Z1-2-3'',
     ShippingAddress3 = [],
     ShippingAddress4 = [],
     ShippingContents = lit_Contents \<rparr>"

section \<open>Properties\<close>

subsection \<open>Counting runes\<close>

text \<open>
  The encoder splits a rune into a leading byte and continuation bytes of six bits each.
  The facts below place these bytes in the ranges that the table \<open>first\<close> asks for:
  for the leading bytes 0xE0 and 0xF0 the second byte excludes overlong forms, for 0xED
  it excludes the surrogates, for 0xF4 everything above U+10FFFF.
\<close>

lemma lead_byte_3: "(r::nat) < 0x10000 \<Longrightarrow> r div 4096 < 16"
  by (simp add: div_less_iff_less_mult)

lemma lead_byte_4: "(r::nat) \<le> 0x10FFFF \<Longrightarrow> r div 262144 < 5"
  by (simp add: div_less_iff_less_mult)

lemma second_lo:
  fixes r :: nat
  assumes "r div (64 * d) = 0" and "n * d \<le> r" and "0 < d"
  shows "n \<le> (r div d) mod 64"
proof -
  from assms(1,3) have "r < 64 * d" by (simp add: div_eq_0_iff)
  then have "r div d < 64" using assms(3) by (simp add: div_less_iff_less_mult)
  then have "(r div d) mod 64 = r div d" by simp
  moreover have "n \<le> r div d" using assms(2,3) by (simp add: less_eq_div_iff_mult_less_eq)
  ultimately show ?thesis by simp
qed

lemma second_hi:
  fixes r :: nat
  assumes "r div (d * 64) = q" and "r < (64 * q + n) * d" and "0 < d"
  shows "(r div d) mod 64 < n"
proof -
  define k where "k = r div d"
  have "k div 64 = q" using assms(1) by (simp add: k_def div_mult2_eq)
  then have m: "k mod 64 = k - 64 * q" by (simp flip: minus_mult_div_eq_mod)
  have "k < 64 * q + n" using assms(2,3) by (simp add: k_def div_less_iff_less_mult)
  moreover have "64 * q \<le> k" using \<open>k div 64 = q\<close> times_div_less_eq_dividend [of 64 k] by simp
  ultimately show ?thesis unfolding k_def[symmetric] m by simp
qed

lemma second_byte_E0: "(r::nat) div 4096 = 0 \<Longrightarrow> 0x800 \<le> r \<Longrightarrow> 32 \<le> (r div 64) mod 64"
  using second_lo [of r 64 32] by simp

lemma second_byte_ED: "(r::nat) div 4096 = 13 \<Longrightarrow> r < 0xD800 \<Longrightarrow> (r div 64) mod 64 < 32"
  using second_hi [of r 64 13 32] by simp

lemma second_byte_F0: "(r::nat) div 262144 = 0 \<Longrightarrow> 0x10000 \<le> r \<Longrightarrow> 16 \<le> (r div 4096) mod 64"
  using second_lo [of r 4096 16] by simp

lemma second_byte_F4: "(r::nat) div 262144 = 4 \<Longrightarrow> r \<le> 0x10FFFF \<Longrightarrow> (r div 4096) mod 64 < 16"
  using second_hi [of r 4096 4 16] by simp

text \<open>
  One round of the decoding loop over an encoded rune consumes exactly its bytes,
  whatever follows.
\<close>

lemma byte_char_of: "n < 256 \<Longrightarrow> byte (char_of n) = n"
  by (simp add: byte_def)

lemma rune_size_1: "(r::nat) < 0x80 \<Longrightarrow> rune_size (char_of r) rest = 1"
  by (simp add: rune_size_def first_def byte_char_of)

lemma rune_size_2:
  fixes r :: nat
  assumes "0x80 \<le> r" "r < 0x800"
  shows "rune_size (char_of (0xC0 + r div 64)) (char_of (0x80 + r mod 64) # rest) = 2"
proof -
  have "2 \<le> r div 64" "r div 64 < 32"
    using assms by (simp_all add: less_eq_div_iff_mult_less_eq div_less_iff_less_mult)
  then have f: "byte (char_of (0xC0 + r div 64)) = 0xC0 + r div 64"
    "first (0xC0 + r div 64) = (2, 0x80, 0xBF)"
    by (simp_all add: byte_char_of first_def)
  have b: "byte (char_of (0x80 + r mod 64)) = 0x80 + r mod 64"
    by (simp add: byte_char_of)
  have "r mod 64 < 64" by simp
  then show ?thesis
    by (simp add: rune_size_def f b)
qed

lemma cont_char_of: "(m::nat) < 64 \<Longrightarrow> cont (char_of (0x80 + m))"
  by (simp add: cont_def byte_char_of)

lemma rune_size_3:
  fixes r :: nat
  assumes "0x800 \<le> r" "r < 0x10000" "ValidRune r"
  shows "rune_size (char_of (0xE0 + r div 4096))
           (char_of (0x80 + (r div 64) mod 64) # char_of (0x80 + r mod 64) # rest) = 3"
proof -
  define q where "q = r div 4096"
  define m where "m = (r div 64) mod 64"
  have q: "q < 16" unfolding q_def using assms(2) by (rule lead_byte_3)
  have m: "m < 64" unfolding m_def by simp
  have b0: "byte (char_of (0xE0 + q)) = 0xE0 + q" using q by (simp add: byte_char_of)
  have b1: "byte (char_of (0x80 + m)) = 0x80 + m" using m by (simp add: byte_char_of)
  have c2: "cont (char_of (0x80 + r mod 64))" by (simp add: cont_char_of)
  have lo: "q = 0 \<Longrightarrow> 32 \<le> m" unfolding q_def m_def using assms(1) by (simp add: second_byte_E0)
  have "q = 13 \<Longrightarrow> r < 0xD800"
    using assms(3) div_less_iff_less_mult [of 4096 r 14] by (simp add: q_def ValidRune_def)
  then have hi: "q = 13 \<Longrightarrow> m < 32" unfolding q_def m_def by (simp add: second_byte_ED)
  have "\<exists>lo hi. first (0xE0 + q) = (3, lo, hi) \<and> lo \<le> 0x80 + m \<and> 0x80 + m \<le> hi"
    using q m lo hi by (auto simp add: first_def)
  then obtain l h where "first (0xE0 + q) = (3, l, h)" "l \<le> 0x80 + m" "0x80 + m \<le> h"
    by blast
  then show ?thesis
    unfolding q_def[symmetric] m_def[symmetric]
    by (simp add: rune_size_def b0 b1 c2)
qed

lemma rune_size_4:
  fixes r :: nat
  assumes "0x10000 \<le> r" "r \<le> 0x10FFFF"
  shows "rune_size (char_of (0xF0 + r div 262144))
           (char_of (0x80 + (r div 4096) mod 64) # char_of (0x80 + (r div 64) mod 64)
             # char_of (0x80 + r mod 64) # rest) = 4"
proof -
  define q where "q = r div 262144"
  define m where "m = (r div 4096) mod 64"
  have q: "q < 5" unfolding q_def using assms(2) by (rule lead_byte_4)
  have m: "m < 64" unfolding m_def by simp
  have b0: "byte (char_of (0xF0 + q)) = 0xF0 + q" using q by (simp add: byte_char_of)
  have b1: "byte (char_of (0x80 + m)) = 0x80 + m" using m by (simp add: byte_char_of)
  have c2: "cont (char_of (0x80 + (r div 64) mod 64))" by (simp add: cont_char_of)
  have c3: "cont (char_of (0x80 + r mod 64))" by (simp add: cont_char_of)
  have lo: "q = 0 \<Longrightarrow> 16 \<le> m" unfolding q_def m_def using assms(1) by (simp add: second_byte_F0)
  have hi: "q = 4 \<Longrightarrow> m < 16" unfolding q_def m_def using assms(2) by (simp add: second_byte_F4)
  have "q = 0 \<or> q = 4 \<or> (0 < q \<and> q < 4)" using q by linarith
  then have "\<exists>lo hi. first (0xF0 + q) = (4, lo, hi) \<and> lo \<le> 0x80 + m \<and> 0x80 + m \<le> hi"
    using m lo hi by (auto simp add: first_def)
  then obtain l h where "first (0xF0 + q) = (4, l, h)" "l \<le> 0x80 + m" "0x80 + m \<le> h"
    by blast
  then show ?thesis
    unfolding q_def[symmetric] m_def[symmetric]
    by (simp add: rune_size_def b0 b1 c2 c3)
qed

lemma RuneCount_AppendRune:
  assumes "ValidRune r"
  shows "RuneCountInString (AppendRune r @ rest) = Suc (RuneCountInString rest)"
proof -
  consider "r < 0x80" | "0x80 \<le> r" "r < 0x800" | "0x800 \<le> r" "r < 0x10000"
    | "0x10000 \<le> r" "r \<le> 0x10FFFF"
    using assms unfolding ValidRune_def by linarith
  then show ?thesis
  proof cases
    case 1 then show ?thesis by (simp add: AppendRune_def rune_size_1)
  next
    case 2 then show ?thesis by (simp add: AppendRune_def rune_size_2)
  next
    case 3 then show ?thesis using assms by (simp add: AppendRune_def rune_size_3)
  next
    case 4 then show ?thesis by (simp add: AppendRune_def rune_size_4)
  qed
qed

lemma RuneCount_utf8:
  "list_all ValidRune rs \<Longrightarrow> RuneCountInString (utf8 rs) = length rs"
  by (induction rs) (simp_all add: utf8_def RuneCount_AppendRune)

subsection \<open>Chunks\<close>

text \<open>
  \<open>slices\<close> obeys the two equations of the loop: an input of at most \<open>n\<close> elements
  is one chunk, a longer one is its first \<open>n\<close> elements followed by the chunks of
  the rest. By induction on the length of the input the loop returns \<open>slices\<close>.
\<close>

lemma slices_last: "1 \<le> n \<Longrightarrow> length xs \<le> n \<Longrightarrow> slices n xs = [xs]"
proof -
  assume h: "1 \<le> n" "length xs \<le> n"
  have "(length xs + n - 1) div n \<le> 1"
  proof (cases "length xs = 0")
    case True then show ?thesis using h by simp
  next
    case False
    then have "length xs + n - 1 < 2 * n" using h by linarith
    then have "(length xs + n - 1) div n < 2" using h by (simp add: div_less_iff_less_mult)
    then show ?thesis by simp
  qed
  then have "max 1 ((length xs + n - 1) div n) = 1" by simp
  then show ?thesis using h by (simp add: slices_def)
qed

lemma ceil_pos:
  fixes n L :: nat
  assumes "1 \<le> n" "1 \<le> L"
  shows "(L + n - 1) div n = Suc ((L - 1) div n)"
proof -
  define m where "m = L - 1"
  have "L + n - 1 = m + n" using assms unfolding m_def by linarith
  moreover have "n \<noteq> 0" using assms by simp
  then have "(m + n) div n = Suc (m div n)" by (simp add: div_add_self2)
  ultimately show ?thesis unfolding m_def by simp
qed

lemma slices_step:
  assumes "1 \<le> n" "n < length xs"
  shows "slices n xs = take n xs # slices n (drop n xs)"
proof -
  let ?k = "(length (drop n xs) + n - 1) div n"
  have pos: "1 \<le> ?k"
    using assms by (simp add: less_eq_div_iff_mult_less_eq)
  have k: "(length xs + n - 1) div n = Suc ?k"
  proof -
    define m where "m = length (drop n xs) + n - 1"
    have "length xs + n - 1 = m + n" using assms unfolding m_def by simp
    moreover have "n \<noteq> 0" using assms by simp
    then have "(m + n) div n = Suc (m div n)" by (simp add: div_add_self2)
    ultimately show ?thesis unfolding m_def by simp
  qed
  have "slices n xs = map (\<lambda>i. take n (drop (i * n) xs)) [0..<Suc ?k]"
    using k by (simp add: slices_def)
  also have "\<dots> = take n xs # map (\<lambda>i. take n (drop (Suc i * n) xs)) [0..<?k]"
    by (simp only: upt_conv_Cons [of 0] map_Suc_upt [symmetric] list.map map_map o_def) simp
  also have "map (\<lambda>i. take n (drop (Suc i * n) xs)) [0..<?k] = slices n (drop n xs)"
    using pos by (simp add: slices_def max_def add.commute)
  finally show ?thesis .
qed


lemma loop_slices:
  "1 \<le> n \<Longrightarrow>
   ChunkShopifyOrders_loop items (int n) chunks = Some (Inr (chunks @ slices n items))"
proof (induction "length items" arbitrary: items chunks rule: less_induct)
  case less
  show ?case
  proof (cases "n < length items")
    case True
    then have "length (drop n items) < length items" using less.prems by simp
    then have "ChunkShopifyOrders_loop (drop n items) (int n) (chunks @ [take n items]) =
        Some (Inr ((chunks @ [take n items]) @ slices n (drop n items)))"
      using less.prems by (rule less.hyps)
    then show ?thesis
      using True less.prems
      by (subst ChunkShopifyOrders_loop.simps) (simp add: slices_step)
  next
    case False
    then show ?thesis
      using less.prems
      by (subst ChunkShopifyOrders_loop.simps) (simp add: slices_last)
  qed
qed

text \<open>
  With chunk size 0 a round leaves the input as it is: by fixpoint induction, whenever
  the loop returns, the input was empty.
\<close>

lemma loop_diverges:
  assumes "ChunkShopifyOrders_loop items chunkSize chunks = Some y"
  shows "chunkSize = 0 \<longrightarrow> items = []"
proof (rule ChunkShopifyOrders_loop.raw_induct
    [where P = "\<lambda>items chunkSize chunks y. chunkSize = 0 \<longrightarrow> items = []", OF _ assms], goal_cases)
  case (1 f items chunkSize chunks y)
  show ?case
  proof (intro impI, rule ccontr)
    assume z: "chunkSize = 0" and ne: "items \<noteq> []"
    then have "f (drop (nat chunkSize) items) chunkSize (chunks @ [take (nat chunkSize) items]) = Some y"
      using 1(2) by simp
    then have "chunkSize = 0 \<longrightarrow> drop (nat chunkSize) items = []" by (rule 1(1))
    then show False using ne z by simp
  qed
qed

text \<open>The number of chunks, their contents and their lengths.\<close>

lemma concat_slices: "1 \<le> n \<Longrightarrow> concat (slices n xs) = xs"
proof (induction "length xs" arbitrary: xs rule: less_induct)
  case less
  show ?case
  proof (cases "n < length xs")
    case True
    then have "length (drop n xs) < length xs" using less.prems by simp
    then have "concat (slices n (drop n xs)) = drop n xs" using less.prems by (rule less.hyps)
    then show ?thesis using True less.prems by (simp add: slices_step)
  next
    case False
    then show ?thesis using less.prems by (simp add: slices_last)
  qed
qed


lemma length_slices:
  "1 \<le> n \<Longrightarrow> xs \<noteq> [] \<Longrightarrow> length (slices n xs) = (length xs + n - 1) div n"
proof -
  assume h: "1 \<le> n" "xs \<noteq> []"
  then have "1 \<le> length xs" by (cases xs) simp_all
  with h(1) have "(length xs + n - 1) div n = Suc ((length xs - 1) div n)" by (rule ceil_pos)
  then show ?thesis by (simp add: slices_def)
qed

lemma nth_slices:
  "i < length (slices n xs) \<Longrightarrow> slices n xs ! i = take n (drop (i * n) xs)"
  by (simp add: slices_def)

lemma ceil_bounds:
  fixes n L :: nat
  assumes "1 \<le> n" "1 \<le> L"
  shows "((L + n - 1) div n - 1) * n < L" and "L \<le> (L + n - 1) div n * n"
proof -
  have k: "(L + n - 1) div n = Suc ((L - 1) div n)" using assms by (rule ceil_pos)
  have "(L - 1) div n * n \<le> L - 1" by (rule div_times_less_eq_dividend)
  then have "(L - 1) div n * n < L" using assms(2) by linarith
  then show "((L + n - 1) div n - 1) * n < L" unfolding k by simp
  have "L - 1 < Suc ((L - 1) div n) * n"
    using assms(1) dividend_less_div_times [of n "L - 1"] by simp
  then show "L \<le> (L + n - 1) div n * n" unfolding k using assms(2) by linarith
qed

lemma full_slices:
  assumes "1 \<le> n" "Suc i < length (slices n xs)"
  shows "length (slices n xs ! i) = n"
proof -
  have ne: "xs \<noteq> []"
  proof
    assume "xs = []"
    then have "slices n xs = [xs]" using assms(1) by (simp add: slices_last)
    then show False using assms(2) by simp
  qed
  then have L: "1 \<le> length xs" by (cases xs) simp_all
  have "Suc i \<le> length (slices n xs) - 1" using assms(2) by simp
  then have "Suc i * n \<le> (length (slices n xs) - 1) * n" by (rule mult_le_mono1)
  also have "\<dots> < length xs"
    using ceil_bounds(1) [OF assms(1) L] length_slices [OF assms(1) ne] by simp
  finally have "i * n + n \<le> length xs" by simp
  moreover have "i < length (slices n xs)" using assms(2) by simp
  ultimately show ?thesis by (simp add: nth_slices)
qed

lemma last_slices:
  assumes "1 \<le> n" "xs \<noteq> []"
  shows "0 < length (last (slices n xs))" and "length (last (slices n xs)) \<le> n"
proof -
  have L: "1 \<le> length xs" using assms(2) by (cases xs) simp_all
  define k where "k = length (slices n xs)"
  have k: "k = (length xs + n - 1) div n" unfolding k_def using assms by (rule length_slices)
  then have kpos: "0 < k" using ceil_pos [OF assms(1) L] by simp
  then have "slices n xs \<noteq> []" unfolding k_def by simp
  then have "last (slices n xs) = slices n xs ! (k - 1)" unfolding k_def by (rule last_conv_nth)
  also have "\<dots> = take n (drop ((k - 1) * n) xs)" using kpos unfolding k_def by (simp add: nth_slices)
  finally have l: "last (slices n xs) = take n (drop ((k - 1) * n) xs)" .
  have "(k - 1) * n < length xs" using ceil_bounds(1) [OF assms(1) L] k by simp
  then show "0 < length (last (slices n xs))" using assms(1) by (simp add: l)
  show "length (last (slices n xs)) \<le> n" by (simp add: l)
qed

subsection \<open>The export loop\<close>

text \<open>
  On a batch without \<^verbatim>\<open>nil\<close> the loop does not panic; it appends the labels that
  validate and logs the lines of those that do not.
\<close>

lemma Export_loop_accepted:
  "Export_loop (map Some orders) shippingLabels logs =
     (Inr (shippingLabels @ accepted orders), logs @ diagnostics orders)"
proof (induction orders arbitrary: shippingLabels logs)
  case Nil
  show ?case by (simp add: accepted_def diagnostics_def)
next
  case (Cons o1 orders)
  show ?case
  proof (cases "Validate (ToClickpostShippingLabel o1)")
    case None
    then show ?thesis by (simp add: Cons.IH accepted_def diagnostics_def)
  next
    case (Some err)
    then show ?thesis by (simp add: Cons.IH accepted_def diagnostics_def)
  qed
qed

subsection \<open>The transformer\<close>

text \<open>
  Claim C8. For every order, the label's address line 1 is the order's province followed
  by its city, with nothing between; address line 3 is the order's address line 2 as
  it is; address line 4 is the empty string; postal code and recipient name are the
  order's, as they are.
\<close>

theorem ToClickpostShippingLabel_fields:
  "ClickpostShippingLabel.ShippingAddress1 (ToClickpostShippingLabel s) =
     ShippingProvince s @ ShippingCity s
   \<and> ShippingAddress3 (ToClickpostShippingLabel s) = ShopifyOrder.ShippingAddress2 s
   \<and> ShippingAddress4 (ToClickpostShippingLabel s) = []
   \<and> ClickpostShippingLabel.ShippingZip (ToClickpostShippingLabel s) = ShopifyOrder.ShippingZip s
   \<and> ClickpostShippingLabel.ShippingName (ToClickpostShippingLabel s) =
       ShopifyOrder.ShippingName s"
  by (simp add: ToClickpostShippingLabel_def)

text \<open>
  Claim C1, as stated, fails. The claim takes the second operand of line 97 for the
  label's address line 1 computed in line 96; it is the order's own address line 1.
  For the order of the round-trip scenario with address line 1 "1-2-3", the label's
  address line 2 is "Z1-2-3": it is neither "ZXY" nor the street followed by the
  label's address line 1, and the label's address line 1 is not a suffix of it.
\<close>

theorem ToClickpostShippingLabel_address2_counterexample:
  "ClickpostShippingLabel.ShippingAddress2 (ToClickpostShippingLabel order_XYZ) \<noteq>
     ShippingStreet order_XYZ
       @ ClickpostShippingLabel.ShippingAddress1 (ToClickpostShippingLabel order_XYZ)
   \<and> \<not> suffix (ClickpostShippingLabel.ShippingAddress1 (ToClickpostShippingLabel order_XYZ))
         (ClickpostShippingLabel.ShippingAddress2 (ToClickpostShippingLabel order_XYZ))
   \<and> ShopifyOrder.ShippingAddress2 order_XYZ = []
   \<and> ShippingProvince order_XYZ = ''X''
   \<and> ShippingCity order_XYZ = ''Y''
   \<and> ShippingStreet order_XYZ = ''Z''
   \<and> ClickpostShippingLabel.ShippingAddress2 (ToClickpostShippingLabel order_XYZ) \<noteq> ''ZXY''"
  by (simp add: ToClickpostShippingLabel_def order_XYZ_def suffix_def)

text \<open>
  Claim C1, amended. For every order, the label's address line 2 is the order's street
  name followed by the order's address line 1, with nothing between; hence it always
  has the order's address line 1 as a suffix. An order with address line 2 empty,
  province "X", city "Y" and street "Z" yields address line 1 = "XY", address line 2 =
  "Z" followed by the order's address line 1, and address line 3 = "".
\<close>

theorem ToClickpostShippingLabel_address2:
  "ClickpostShippingLabel.ShippingAddress2 (ToClickpostShippingLabel s) =
     ShippingStreet s @ ShopifyOrder.ShippingAddress1 s
   \<and> suffix (ShopifyOrder.ShippingAddress1 s)
         (ClickpostShippingLabel.ShippingAddress2 (ToClickpostShippingLabel s))
   \<and> (ShopifyOrder.ShippingAddress2 s = [] \<and> ShippingProvince s = ''X''
        \<and> ShippingCity s = ''Y'' \<and> ShippingStreet s = ''Z''
      \<longrightarrow> ClickpostShippingLabel.ShippingAddress1 (ToClickpostShippingLabel s) = ''XY''
        \<and> ClickpostShippingLabel.ShippingAddress2 (ToClickpostShippingLabel s) =
            ''Z'' @ ShopifyOrder.ShippingAddress1 s
        \<and> ShippingAddress3 (ToClickpostShippingLabel s) = [])"
  by (simp add: ToClickpostShippingLabel_def suffix_def)

theorem ToClickpostShippingLabel_address2_witness:
  "ShopifyOrder.ShippingAddress2 order_XYZ = [] \<and> ShippingProvince order_XYZ = ''X''
   \<and> ShippingCity order_XYZ = ''Y'' \<and> ShippingStreet order_XYZ = ''Z''
   \<and> ClickpostShippingLabel.ShippingAddress1 (ToClickpostShippingLabel order_XYZ) = ''XY''
   \<and> ClickpostShippingLabel.ShippingAddress2 (ToClickpostShippingLabel order_XYZ) = ''Z1-2-3''
   \<and> ShippingAddress3 (ToClickpostShippingLabel order_XYZ) = []"
  using ToClickpostShippingLabel_address2 [of order_XYZ]
  by (simp add: order_XYZ_def)

subsection \<open>The validator\<close>

lemma errors_distinct: "distinct (map snd checks)"
  by (simp add: checks_def errZipRequired_def errNameRequired_def errNameTooLong_def
      errAddress1Required_def errAddress1TooLong_def errAddress2Required_def
      errAddress2TooLong_def errAddress3TooLong_def errAddress4TooLong_def
      errContentsTooLong_def)

lemma Validate_first_failure: "Validate c = first_failure checks c"
  by (simp add: Validate_def checks_def not_le)

lemma Validate_None_iff:
  "Validate c = None \<longleftrightarrow>
     ClickpostShippingLabel.ShippingName c \<noteq> []
     \<and> RuneCountInString (ClickpostShippingLabel.ShippingName c) \<le> 20
     \<and> other_fields_ok c"
  by (auto simp add: Validate_def other_fields_ok_def)

text \<open>
  Claim C3. For every label, \<open>Validate\<close> succeeds if and only if all ten constraints
  hold, and its result is that of running the ten checks in the order of the
  specification and stopping at the first that fails. The ten errors are pairwise
  different, so the error tells which check failed first.
\<close>

theorem Validate_checks_in_order:
  "(Validate c = None \<longleftrightarrow>
      ClickpostShippingLabel.ShippingZip c \<noteq> []
      \<and> ClickpostShippingLabel.ShippingName c \<noteq> []
      \<and> RuneCountInString (ClickpostShippingLabel.ShippingName c) \<le> 20
      \<and> ClickpostShippingLabel.ShippingAddress1 c \<noteq> []
      \<and> RuneCountInString (ClickpostShippingLabel.ShippingAddress1 c) \<le> 20
      \<and> ClickpostShippingLabel.ShippingAddress2 c \<noteq> []
      \<and> RuneCountInString (ClickpostShippingLabel.ShippingAddress2 c) \<le> 20
      \<and> RuneCountInString (ShippingAddress3 c) \<le> 20
      \<and> RuneCountInString (ShippingAddress4 c) \<le> 20
      \<and> RuneCountInString (ShippingContents c) \<le> 15)
   \<and> Validate c = first_failure checks c
   \<and> length checks = 10
   \<and> distinct (map snd checks)"
proof -
  have "Validate c = None \<longleftrightarrow>
      ClickpostShippingLabel.ShippingZip c \<noteq> []
      \<and> ClickpostShippingLabel.ShippingName c \<noteq> []
      \<and> RuneCountInString (ClickpostShippingLabel.ShippingName c) \<le> 20
      \<and> ClickpostShippingLabel.ShippingAddress1 c \<noteq> []
      \<and> RuneCountInString (ClickpostShippingLabel.ShippingAddress1 c) \<le> 20
      \<and> ClickpostShippingLabel.ShippingAddress2 c \<noteq> []
      \<and> RuneCountInString (ClickpostShippingLabel.ShippingAddress2 c) \<le> 20
      \<and> RuneCountInString (ShippingAddress3 c) \<le> 20
      \<and> RuneCountInString (ShippingAddress4 c) \<le> 20
      \<and> RuneCountInString (ShippingContents c) \<le> 15"
    by (auto simp add: Validate_None_iff other_fields_ok_def)
  moreover have "length checks = 10" by (simp add: checks_def)
  ultimately show ?thesis
    using Validate_first_failure errors_distinct by blast
qed

lemma AppendRune_not_empty: "AppendRune r \<noteq> []"
  by (simp add: AppendRune_def)

lemma utf8_empty_iff: "utf8 rs = [] \<longleftrightarrow> rs = []"
  by (cases rs) (simp_all add: utf8_def AppendRune_not_empty)

lemma length_sample_name: "length (utf8 (replicate n 0x5C71)) = 3 * n"
  by (induction n) (simp_all add: utf8_def AppendRune_def)

lemma valid_sample_name: "list_all ValidRune (replicate n 0x5C71)"
  by (induction n) (simp_all add: ValidRune_def)

lemma RuneCount_lit_Contents: "RuneCountInString lit_Contents = 6"
  by (simp add: lit_Contents_def rune_size_def first_def cont_def byte_def)

lemma other_fields_ok_label_named: "other_fields_ok (label_named name)"
  by (simp add: other_fields_ok_def label_named_def RuneCount_lit_Contents
      rune_size_def first_def byte_def)

text \<open>
  Claim C5. For every label whose other fields satisfy their constraints and whose
  recipient name is the UTF-8 encoding of a sequence of characters (Unicode scalar
  values, one to four bytes each), \<open>Validate\<close> rejects the label, with the error for
  a name that is too long, when the name has 21 or more characters, and accepts it when
  the name has exactly 20: each character counts once, however many bytes it takes.
\<close>

theorem Validate_name_glyphs:
  assumes "list_all ValidRune rs"
    and "ClickpostShippingLabel.ShippingName c = utf8 rs"
    and "other_fields_ok c"
  shows "RuneCountInString (ClickpostShippingLabel.ShippingName c) = length rs
    \<and> (21 \<le> length rs \<longrightarrow> Validate c = Some errNameTooLong)
    \<and> (length rs = 20 \<longrightarrow> Validate c = None)"
proof -
  have n: "RuneCountInString (ClickpostShippingLabel.ShippingName c) = length rs"
    using assms(1,2) by (simp add: RuneCount_utf8)
  have e: "ClickpostShippingLabel.ShippingName c = [] \<longleftrightarrow> rs = []"
    using assms(2) by (simp add: utf8_empty_iff)
  have z: "ClickpostShippingLabel.ShippingZip c \<noteq> []"
    using assms(3) by (simp add: other_fields_ok_def)
  have "21 \<le> length rs \<Longrightarrow> Validate c = Some errNameTooLong"
    using n e z by (auto simp add: Validate_def)
  moreover have "length rs = 20 \<Longrightarrow> Validate c = None"
    using n e assms(3) by (auto simp add: Validate_None_iff)
  ultimately show ?thesis using n by blast
qed

theorem Validate_name_glyphs_witness:
  "list_all ValidRune (replicate 20 0x5C71)
   \<and> other_fields_ok (label_named (utf8 (replicate 20 0x5C71)))
   \<and> length (utf8 (replicate 20 0x5C71)) = 60
   \<and> Validate (label_named (utf8 (replicate 20 0x5C71))) = None
   \<and> list_all ValidRune (replicate 21 0x5C71)
   \<and> other_fields_ok (label_named (utf8 (replicate 21 0x5C71)))
   \<and> length (utf8 (replicate 21 0x5C71)) = 63
   \<and> Validate (label_named (utf8 (replicate 21 0x5C71))) = Some errNameTooLong"
proof -
  have a: "ClickpostShippingLabel.ShippingName (label_named (utf8 (replicate n 0x5C71))) =
      utf8 (replicate n 0x5C71)" for n
    by (simp add: label_named_def)
  show ?thesis
    using Validate_name_glyphs [OF valid_sample_name a other_fields_ok_label_named, of 20]
      Validate_name_glyphs [OF valid_sample_name a other_fields_ok_label_named, of 21]
    by (simp add: valid_sample_name other_fields_ok_label_named length_sample_name)
qed

text \<open>
  Claim C6. \<open>Validate\<close> rejects every label whose recipient name is empty, whatever
  the other fields hold, and every label whose address line 2 is empty; and a label
  that satisfies all other constraints is accepted with address lines 3 and 4 empty.
\<close>

theorem Validate_required_fields:
  "(ClickpostShippingLabel.ShippingName c = [] \<longrightarrow> Validate c \<noteq> None)
   \<and> (ClickpostShippingLabel.ShippingAddress2 c = [] \<longrightarrow> Validate c \<noteq> None)
   \<and> (ClickpostShippingLabel.ShippingZip c \<noteq> []
      \<and> ClickpostShippingLabel.ShippingName c \<noteq> []
      \<and> RuneCountInString (ClickpostShippingLabel.ShippingName c) \<le> 20
      \<and> ClickpostShippingLabel.ShippingAddress1 c \<noteq> []
      \<and> RuneCountInString (ClickpostShippingLabel.ShippingAddress1 c) \<le> 20
      \<and> ClickpostShippingLabel.ShippingAddress2 c \<noteq> []
      \<and> RuneCountInString (ClickpostShippingLabel.ShippingAddress2 c) \<le> 20
      \<and> RuneCountInString (ShippingContents c) \<le> 15
      \<longrightarrow> Validate (c \<lparr> ShippingAddress3 := [], ShippingAddress4 := [] \<rparr>) = None)"
  by (simp add: Validate_None_iff other_fields_ok_def)

theorem Validate_required_fields_witness:
  "Validate (label_named []) \<noteq> None
   \<and> Validate ((label_named ''Yamada'') \<lparr> ClickpostShippingLabel.ShippingAddress2 := [] \<rparr>)
       \<noteq> None
   \<and> Validate ((label_named ''Yamada'') \<lparr> ShippingAddress3 := [], ShippingAddress4 := [] \<rparr>)
       = None"
  using Validate_required_fields [of "label_named []"]
    Validate_required_fields
      [of "(label_named ''Yamada'') \<lparr> ClickpostShippingLabel.ShippingAddress2 := [] \<rparr>"]
    Validate_required_fields [of "label_named ''Yamada''"]
  by (simp add: label_named_def RuneCount_lit_Contents rune_size_def first_def byte_def)

text \<open>
  Claim C9. For every label made by the transformer, address line 4 is the empty string,
  of 0 characters, and the contents are the fixed literal, of 6 characters, so neither
  the check of address line 4 nor the check of the contents can fail: validation ends
  in success or in one of the eight errors for postal code, name and address lines 1
  to 3.
\<close>

theorem Validate_ToClickpostShippingLabel_unreachable:
  "ShippingAddress4 (ToClickpostShippingLabel s) = []
   \<and> RuneCountInString (ShippingAddress4 (ToClickpostShippingLabel s)) = 0
   \<and> ShippingContents (ToClickpostShippingLabel s) = lit_Contents
   \<and> RuneCountInString (ShippingContents (ToClickpostShippingLabel s)) = 6
   \<and> Validate (ToClickpostShippingLabel s) \<noteq> Some errAddress4TooLong
   \<and> Validate (ToClickpostShippingLabel s) \<noteq> Some errContentsTooLong
   \<and> Validate (ToClickpostShippingLabel s) \<in>
       {None, Some errZipRequired, Some errNameRequired, Some errNameTooLong,
        Some errAddress1Required, Some errAddress1TooLong, Some errAddress2Required,
        Some errAddress2TooLong, Some errAddress3TooLong}"
proof -
  let ?c = "ToClickpostShippingLabel s"
  have a: "ShippingAddress4 ?c = []" "ShippingContents ?c = lit_Contents"
    by (simp_all add: ToClickpostShippingLabel_def)
  have m: "Validate ?c \<in>
       {None, Some errZipRequired, Some errNameRequired, Some errNameTooLong,
        Some errAddress1Required, Some errAddress1TooLong, Some errAddress2Required,
        Some errAddress2TooLong, Some errAddress3TooLong}"
    unfolding Validate_def a by (simp add: RuneCount_lit_Contents)
  have d: "errAddress4TooLong \<notin> {errZipRequired, errNameRequired, errNameTooLong,
      errAddress1Required, errAddress1TooLong, errAddress2Required, errAddress2TooLong,
      errAddress3TooLong}"
    "errContentsTooLong \<notin> {errZipRequired, errNameRequired, errNameTooLong,
      errAddress1Required, errAddress1TooLong, errAddress2Required, errAddress2TooLong,
      errAddress3TooLong}"
    using errors_distinct by (auto simp add: checks_def)
  have "Validate ?c \<noteq> Some errAddress4TooLong" using m d(1) by auto
  moreover have "Validate ?c \<noteq> Some errContentsTooLong" using m d(2) by auto
  ultimately show ?thesis using a m by (simp add: RuneCount_lit_Contents)
qed

subsection \<open>The batcher\<close>

lemma ChunkShopifyOrders_slices:
  assumes "1 \<le> N"
  shows "ChunkShopifyOrders items N = Some (Inr (slices (nat N) items))"
proof -
  have "1 \<le> nat N" using assms by simp
  then have "ChunkShopifyOrders_loop items (int (nat N)) [] =
      Some (Inr ([] @ slices (nat N) items))"
    by (rule loop_slices)
  then show ?thesis using assms by (simp add: ChunkShopifyOrders_def)
qed

text \<open>
  Claim C2. For every chunk size \<open>N \<ge> 1\<close> and every input of length \<open>L > 0\<close>,
  \<open>ChunkShopifyOrders\<close> returns exactly \<open>ceil (L / N)\<close> chunks (the number \<open>k\<close>
  with \<open>(k - 1) * N < L \<le> k * N\<close>); chunk \<open>i\<close> is the contiguous slice of the input
  that starts at position \<open>i * N\<close>; every chunk but the last has length exactly \<open>N\<close>,
  the last has a length between 1 and \<open>N\<close>; and the chunks concatenated in order are
  the input.
\<close>

theorem ChunkShopifyOrders_chunks:
  assumes "1 \<le> N" and "items \<noteq> []"
  shows "\<exists>chunks. ChunkShopifyOrders items N = Some (Inr chunks)
    \<and> length chunks = (length items + nat N - 1) div nat N
    \<and> (length chunks - 1) * nat N < length items
    \<and> length items \<le> length chunks * nat N
    \<and> (\<forall>i<length chunks. chunks ! i = take (nat N) (drop (i * nat N) items))
    \<and> (\<forall>i. Suc i < length chunks \<longrightarrow> length (chunks ! i) = nat N)
    \<and> 0 < length (last chunks)
    \<and> length (last chunks) \<le> nat N
    \<and> concat chunks = items"
proof -
  define n where "n = nat N"
  have n: "1 \<le> n" using assms(1) by (simp add: n_def)
  have L: "1 \<le> length items" using assms(2) by (cases items) simp_all
  have len: "length (slices n items) = (length items + n - 1) div n"
    using n assms(2) by (rule length_slices)
  have "ChunkShopifyOrders items N = Some (Inr (slices n items))"
    unfolding n_def using assms(1) by (rule ChunkShopifyOrders_slices)
  moreover have "(length (slices n items) - 1) * n < length items"
    unfolding len using n L by (rule ceil_bounds(1))
  moreover have "length items \<le> length (slices n items) * n"
    unfolding len using n L by (rule ceil_bounds(2))
  moreover have "\<forall>i<length (slices n items).
      slices n items ! i = take n (drop (i * n) items)"
    by (simp add: nth_slices)
  moreover have "\<forall>i. Suc i < length (slices n items) \<longrightarrow> length (slices n items ! i) = n"
    using n by (simp add: full_slices)
  moreover have "0 < length (last (slices n items))"
    using n assms(2) by (rule last_slices(1))
  moreover have "length (last (slices n items)) \<le> n"
    using n assms(2) by (rule last_slices(2))
  moreover have "concat (slices n items) = items"
    using n by (rule concat_slices)
  ultimately show ?thesis
    unfolding n_def using len unfolding n_def by blast
qed

theorem ChunkShopifyOrders_chunks_witness:
  "(1::int) \<le> 2 \<and> [Some order_XYZ, None, Some order_long_name] \<noteq> []
   \<and> ChunkShopifyOrders [Some order_XYZ, None, Some order_long_name] 2 =
       Some (Inr [[Some order_XYZ, None], [Some order_long_name]])
   \<and> (\<exists>chunks. ChunkShopifyOrders [Some order_XYZ, None, Some order_long_name] 2 =
         Some (Inr chunks)
       \<and> length chunks = 2
       \<and> length (last chunks) \<le> 2
       \<and> concat chunks = [Some order_XYZ, None, Some order_long_name])"
proof -
  have e: "ChunkShopifyOrders [Some order_XYZ, None, Some order_long_name] 2 =
       Some (Inr [[Some order_XYZ, None], [Some order_long_name]])"
    by (simp add: ChunkShopifyOrders_def ChunkShopifyOrders_loop.simps)
  show ?thesis
    using ChunkShopifyOrders_chunks [of 2 "[Some order_XYZ, None, Some order_long_name]"] e
    by simp
qed

text \<open>
  Claim C7. For every chunk size \<open>N \<ge> 1\<close>, \<open>ChunkShopifyOrders\<close> applied to the empty
  input returns exactly one chunk, and that chunk is empty.
\<close>

theorem ChunkShopifyOrders_empty:
  "1 \<le> N \<Longrightarrow> ChunkShopifyOrders [] N = Some (Inr [[]])"
  by (simp add: ChunkShopifyOrders_def ChunkShopifyOrders_loop.simps)

theorem ChunkShopifyOrders_empty_witness:
  "(1::int) \<le> 40 \<and> ChunkShopifyOrders [] 40 = Some (Inr [[]])"
  using ChunkShopifyOrders_empty [of 40] by simp

text \<open>
  Claim C10. For every chunk size \<open>N \<ge> 1\<close> and every input, \<open>ChunkShopifyOrders\<close>
  returns: each round of the loop takes exactly \<open>N\<close> elements off the rest of the
  input, which gets strictly shorter. With \<open>N = 0\<close> and an input that is not empty the
  loop never ends.
\<close>

theorem ChunkShopifyOrders_terminates:
  "(1 \<le> N \<longrightarrow>
      (\<exists>chunks. ChunkShopifyOrders items N = Some (Inr chunks))
      \<and> (N < int (length items) \<longrightarrow>
           length (drop (nat N) items) + nat N = length items
           \<and> length (drop (nat N) items) < length items))
   \<and> (items \<noteq> [] \<longrightarrow> ChunkShopifyOrders items 0 = None)"
proof -
  have "1 \<le> N \<Longrightarrow> \<exists>chunks. ChunkShopifyOrders items N = Some (Inr chunks)"
    by (simp add: ChunkShopifyOrders_slices)
  moreover have "1 \<le> N \<Longrightarrow> N < int (length items) \<Longrightarrow>
      length (drop (nat N) items) + nat N = length items
      \<and> length (drop (nat N) items) < length items"
    by simp
  moreover have "ChunkShopifyOrders items 0 = None" if "items \<noteq> []"
  proof (cases "ChunkShopifyOrders items 0")
    case None
    then show ?thesis .
  next
    case (Some y)
    then have "ChunkShopifyOrders_loop items 0 [] = Some y"
      by (simp add: ChunkShopifyOrders_def)
    then have "(0::int) = 0 \<longrightarrow> items = []" by (rule loop_diverges)
    then show ?thesis using that by simp
  qed
  ultimately show ?thesis by blast
qed

theorem ChunkShopifyOrders_terminates_witness:
  "(1::int) \<le> 2 \<and> (2::int) < int (length [Some order_XYZ, None, Some order_long_name])
   \<and> (\<exists>chunks. ChunkShopifyOrders [Some order_XYZ, None, Some order_long_name] 2 =
         Some (Inr chunks))
   \<and> length (drop (nat 2) [Some order_XYZ, None, Some order_long_name]) = 1
   \<and> [Some order_XYZ] \<noteq> []
   \<and> ChunkShopifyOrders [Some order_XYZ] 0 = None"
  using ChunkShopifyOrders_terminates [of 2 "[Some order_XYZ, None, Some order_long_name]"]
    ChunkShopifyOrders_terminates [of 0 "[Some order_XYZ]"]
  by simp

subsection \<open>The exporter\<close>

lemma accepted_iff:
  "label \<in> set (accepted orders) \<longleftrightarrow>
     label \<in> set (map ToClickpostShippingLabel orders) \<and> Validate label = None"
  by (simp add: accepted_def)

lemma diagnostics_member:
  assumes "o1 \<in> set orders" and "Validate (ToClickpostShippingLabel o1) = Some err"
  shows "LogLine (Name o1) err \<in> set (diagnostics orders)"
  using assms by (force simp add: diagnostics_def)

lemma Validate_order_XYZ: "Validate (ToClickpostShippingLabel order_XYZ) = None"
  by (simp add: Validate_None_iff other_fields_ok_def ToClickpostShippingLabel_def
      order_XYZ_def RuneCount_lit_Contents rune_size_def first_def byte_def)

lemma Validate_order_long_name:
  "Validate (ToClickpostShippingLabel order_long_name) = Some errNameTooLong"
proof -
  have "RuneCountInString (utf8 (replicate 21 0x5C71)) = length (replicate 21 (0x5C71::nat))"
    using valid_sample_name by (rule RuneCount_utf8)
  moreover have "utf8 (replicate 21 0x5C71) \<noteq> []"
    by (simp add: utf8_empty_iff)
  ultimately show ?thesis
    by (simp add: Validate_def ToClickpostShippingLabel_def order_long_name_def order_XYZ_def)
qed

text \<open>
  Claim C4. For every batch of orders, whatever creating and writing the file do:
  the function does not panic, and the error it returns is the one of creating the
  file or of writing it, never one of validation; the lines it logs are the diagnostic
  lines of the orders whose label fails validation; the labels it hands to the writer,
  which become the file, are the labels that validate, in the order of the batch.
  So an order whose label fails validation is not in the output, a line with its order
  number and the error of its failing check is logged, and every order of the batch
  whose label validates is in the output.
\<close>

theorem ExportClickpostShippingLabels_skips_invalid:
  "ExportClickpostShippingLabels create marshal filename (map Some orders) w =
     (case create filename of
        Some err \<Rightarrow> (Inr (Some err), w\<lparr>logged := logged w @ diagnostics orders\<rparr>)
      | None \<Rightarrow>
          (Inr (snd (marshal (accepted orders))),
           w\<lparr>logged := logged w @ diagnostics orders,
             files := (files w)(filename \<mapsto> fst (marshal (accepted orders)))\<rparr>))
   \<and> (\<forall>o1 \<in> set orders.
        case Validate (ToClickpostShippingLabel o1) of
          None \<Rightarrow> ToClickpostShippingLabel o1 \<in> set (accepted orders)
        | Some err \<Rightarrow>
            ToClickpostShippingLabel o1 \<notin> set (accepted orders)
            \<and> LogLine (Name o1) err \<in> set (diagnostics orders)
            \<and> LogLine (Name o1) err =
                lit_LogOrder @ Name o1 @ lit_LogError @ err @ [CHR 0x0A])
   \<and> accepted orders =
       map ToClickpostShippingLabel
         (filter (\<lambda>o1. Validate (ToClickpostShippingLabel o1) = None) orders)"
proof -
  have "ExportClickpostShippingLabels create marshal filename (map Some orders) w =
     (case create filename of
        Some err \<Rightarrow> (Inr (Some err), w\<lparr>logged := logged w @ diagnostics orders\<rparr>)
      | None \<Rightarrow>
          (Inr (snd (marshal (accepted orders))),
           w\<lparr>logged := logged w @ diagnostics orders,
             files := (files w)(filename \<mapsto> fst (marshal (accepted orders)))\<rparr>))"
    by (simp add: ExportClickpostShippingLabels_def Export_loop_accepted
        split: option.split prod.split)
  moreover have "case Validate (ToClickpostShippingLabel o1) of
          None \<Rightarrow> ToClickpostShippingLabel o1 \<in> set (accepted orders)
        | Some err \<Rightarrow>
            ToClickpostShippingLabel o1 \<notin> set (accepted orders)
            \<and> LogLine (Name o1) err \<in> set (diagnostics orders)
            \<and> LogLine (Name o1) err =
                lit_LogOrder @ Name o1 @ lit_LogError @ err @ [CHR 0x0A]"
    if "o1 \<in> set orders" for o1
  proof (cases "Validate (ToClickpostShippingLabel o1)")
    case None
    then show ?thesis using that by (simp add: accepted_iff)
  next
    case (Some err)
    then show ?thesis
      using that diagnostics_member [OF that Some]
      by (simp add: accepted_iff LogLine_def)
  qed
  moreover have "accepted orders =
       map ToClickpostShippingLabel
         (filter (\<lambda>o1. Validate (ToClickpostShippingLabel o1) = None) orders)"
    by (simp add: accepted_def filter_map o_def)
  ultimately show ?thesis by blast
qed

theorem ExportClickpostShippingLabels_skips_invalid_witness:
  "order_long_name \<in> set [order_XYZ, order_long_name, order_XYZ]
   \<and> Validate (ToClickpostShippingLabel order_long_name) = Some errNameTooLong
   \<and> ExportClickpostShippingLabels (\<lambda>name. None)
       (\<lambda>labels. (concat (map ClickpostShippingLabel.ShippingZip labels), None))
       ''clickpost-shipping-labels-0.csv''
       (map Some [order_XYZ, order_long_name, order_XYZ])
       \<lparr>logged = [], files = Map.empty\<rparr> =
     (Inr None,
      \<lparr>logged = [LogLine ''#1002'' errNameTooLong],
       files = [''clickpost-shipping-labels-0.csv'' \<mapsto> ''10000011000001'']\<rparr>)
   \<and> accepted [order_XYZ, order_long_name, order_XYZ] =
       [ToClickpostShippingLabel order_XYZ, ToClickpostShippingLabel order_XYZ]"
proof -
  have a: "accepted [order_XYZ, order_long_name, order_XYZ] =
       [ToClickpostShippingLabel order_XYZ, ToClickpostShippingLabel order_XYZ]"
    by (simp add: accepted_def Validate_order_XYZ Validate_order_long_name)
  have d: "diagnostics [order_XYZ, order_long_name, order_XYZ] =
       [LogLine ''#1002'' errNameTooLong]"
    by (simp add: diagnostics_def Validate_order_XYZ Validate_order_long_name)
       (simp add: order_long_name_def)
  have z: "ClickpostShippingLabel.ShippingZip (ToClickpostShippingLabel order_XYZ) = ''1000001''"
    by (simp add: ToClickpostShippingLabel_def order_XYZ_def)
  show ?thesis
    using ExportClickpostShippingLabels_skips_invalid
      [of "\<lambda>name. None"
          "\<lambda>labels. (concat (map ClickpostShippingLabel.ShippingZip labels), None)"
          "''clickpost-shipping-labels-0.csv''"
          "[order_XYZ, order_long_name, order_XYZ]"
          "\<lparr>logged = [], files = Map.empty\<rparr>"]
    by (simp add: a d z Validate_order_long_name)
qed

end
